theory Spec2Isabelle
  imports Main
begin

section \<open>The resume-request service (server.js)\<close>

text \<open>
  The service keeps one table, \<^verbatim>\<open>resume_requests\<close>, and exposes four HTTP handlers plus
  one timer callback.  Each handler is embedded as a function from the environment of the
  call (clock, outcome of the storage and mail calls, process environment), the handler's
  input and the state of the system to the HTTP response and the new state.

  Conventions of the embedding:
  \<^item> a point in time (a JavaScript \<^verbatim>\<open>Date\<close>, a DATETIME column) is its number of
    milliseconds, an \<^typ>\<open>int\<close>; a nullable column is an \<^typ>\<open>'a option\<close>;
  \<^item> the three text inputs of a submission are text or absent (\<^typ>\<open>string option\<close>):
    the data model of the service has no other kind of value in these fields;
  \<^item> a request identifier is the number the table compares it with;
  \<^item> every \<^verbatim>\<open>await db.query\<close> and every \<^verbatim>\<open>await transporter.sendMail\<close> may throw;
    whether it does is read from the environment of the call, and the \<^verbatim>\<open>catch\<close> block
    of the handler is the corresponding branch of the model;
  \<^item> message texts are given without their leading pictographs.
\<close>

subsection \<open>Data\<close>

text \<open>A row of \<^verbatim>\<open>resume_requests\<close>: the columns named by the INSERT statement, and \<^verbatim>\<open>id\<close>.\<close>

record request =
  req_id :: nat
  req_name :: string
  req_email :: string
  req_reason :: string
  status :: string
  created_at :: int
  approved_at :: "int option"

text \<open>A mail handed to the transporter: the recipient and the identifier its link embeds.\<close>

datatype mail =
  AdminMail string nat
| UserMail string nat

text \<open>The lines written to the console, one constructor per call site.\<close>

datatype log_entry =
  RequestResumeError
| RequestStatusError
| AdminApproveError
| DownloadResumeError
| AutoExpireError
| AdminEmailNotSet
| NoEmailForRequest
| AutoExpired nat

text \<open>
  The state the handlers share: the table with its AUTO\_INCREMENT counter, the mails
  accepted by the transporter, the callbacks registered with \<^verbatim>\<open>setTimeout\<close> (due time and
  request identifier) and the console.
\<close>

record sys =
  table :: "request list"
  auto_increment :: nat
  outbox :: "mail list"
  timers :: "(int \<times> nat) list"
  console :: "log_entry list"

text \<open>
  The environment of one call: the clock, whether the reading query, the writing query and
  \<^verbatim>\<open>sendMail\<close> succeed, and \<^verbatim>\<open>process.env.ADMIN_EMAIL\<close>.
\<close>

record env =
  now :: int
  select_ok :: bool
  write_ok :: bool
  mail_ok :: bool
  ADMIN_EMAIL :: "string option"

text \<open>The JSON body of \<^verbatim>\<open>POST /request-resume\<close>.\<close>

record req_body =
  body_name :: "string option"
  body_email :: "string option"
  body_reason :: "string option"

text \<open>What a handler sends: the HTTP status code and the payload.\<close>

datatype payload =
  JsonMessage string
| JsonSubmitted string nat
| JsonStatus string
| JsonStatusRow string nat "int option"
| JsonStatusError string string
| Text string
| ApprovedHtml int
| Download string

type_synonym response = "nat \<times> payload"

subsection \<open>Constants and the storage queries\<close>

definition LINK_EXPIRY_MS :: int where
  "LINK_EXPIRY_MS = 3 * 60 * 1000"

text \<open>JavaScript's \<^verbatim>\<open>!v\<close> on a text value that may be absent.\<close>

definition falsy :: "string option \<Rightarrow> bool" where
  "falsy v = (case v of None \<Rightarrow> True | Some s \<Rightarrow> s = [])"

text \<open>
  Modelled from the spec: the schema of \<^verbatim>\<open>resume_requests\<close> is not part of the sources.
  The identifier of a new row is ``a unique, monotonically assigned identifier'': the
  counter of the table, which the insertion advances.  The other columns are the ones the
  INSERT statement of the handler writes.
\<close>

definition insert_request :: "string \<Rightarrow> string \<Rightarrow> string \<Rightarrow> int \<Rightarrow> sys \<Rightarrow> nat \<times> sys" where
  "insert_request n e r t st =
     (auto_increment st,
      st\<lparr>table := table st @
            [\<lparr>req_id = auto_increment st, req_name = n, req_email = e, req_reason = r,
              status = ''pending'', created_at = t, approved_at = None\<rparr>],
         auto_increment := Suc (auto_increment st)\<rparr>)"

text \<open>\<^verbatim>\<open>SELECT * FROM resume_requests WHERE id = ?\<close>\<close>

definition select_by_id :: "request list \<Rightarrow> nat \<Rightarrow> request list" where
  "select_by_id rows i = filter (\<lambda>r. req_id r = i) rows"

text \<open>\<^verbatim>\<open>SELECT * FROM resume_requests WHERE email=? ORDER BY id DESC LIMIT 1\<close>\<close>

definition select_latest_by_email :: "request list \<Rightarrow> string \<Rightarrow> request list" where
  "select_latest_by_email rows e =
     take 1 (rev (sort_key req_id (filter (\<lambda>r. req_email r = e) rows)))"

text \<open>\<^verbatim>\<open>UPDATE resume_requests SET ... WHERE id=?\<close>, the assignment given as a function.\<close>

definition update_by_id :: "nat \<Rightarrow> (request \<Rightarrow> request) \<Rightarrow> request list \<Rightarrow> request list" where
  "update_by_id i f rows = map (\<lambda>r. if req_id r = i then f r else r) rows"

definition say :: "log_entry \<Rightarrow> sys \<Rightarrow> sys" where
  "say l st = st\<lparr>console := console st @ [l]\<rparr>"

subsection \<open>The handlers\<close>

text \<open>\<^verbatim>\<open>POST /request-resume\<close> (Submit).\<close>

definition request_resume :: "env \<Rightarrow> req_body \<Rightarrow> sys \<Rightarrow> response \<times> sys" where
  "request_resume ev b st =
     (if falsy (body_name b) \<or> falsy (body_email b) \<or> falsy (body_reason b)
      then ((400, JsonMessage ''All fields are required''), st)
      else if \<not> write_ok ev
      then ((500, JsonMessage ''Server error''), say RequestResumeError st)
      else
        (case insert_request (the (body_name b)) (the (body_email b)) (the (body_reason b))
                (now ev) st of
          (insertId, st1) \<Rightarrow>
            if falsy (ADMIN_EMAIL ev)
            then ((201, JsonSubmitted ''Request submitted'' insertId), say AdminEmailNotSet st1)
            else if \<not> mail_ok ev
            then ((500, JsonMessage ''Server error''), say RequestResumeError st1)
            else ((201, JsonSubmitted ''Request submitted'' insertId),
                  st1\<lparr>outbox := outbox st1 @ [AdminMail (the (ADMIN_EMAIL ev)) insertId]\<rparr>)))"

text \<open>\<^verbatim>\<open>GET /request-status/:email\<close> (GetStatus).\<close>

definition request_status :: "env \<Rightarrow> string \<Rightarrow> sys \<Rightarrow> response \<times> sys" where
  "request_status ev e st =
     (if \<not> select_ok ev
      then ((500, JsonStatusError ''error'' ''Server error''), say RequestStatusError st)
      else
        (case select_latest_by_email (table st) e of
          [] \<Rightarrow> ((200, JsonStatus ''none''), st)
        | r # _ \<Rightarrow> ((200, JsonStatusRow (status r) (req_id r) (approved_at r)), st)))"

text \<open>
  \<^verbatim>\<open>GET /admin-approve/:requestId\<close> (Approve).  The timer is registered after the mail
  was sent, so a throwing \<^verbatim>\<open>sendMail\<close> leaves the update in place and registers nothing.
\<close>

definition admin_approve :: "env \<Rightarrow> nat \<Rightarrow> sys \<Rightarrow> response \<times> sys" where
  "admin_approve ev requestId st =
     (if \<not> select_ok ev
      then ((500, Text ''Server error''), say AdminApproveError st)
      else
        (case select_by_id (table st) requestId of
          [] \<Rightarrow> ((404, Text ''Request not found''), st)
        | r # _ \<Rightarrow>
            if \<not> write_ok ev
            then ((500, Text ''Server error''), say AdminApproveError st)
            else
              let approvalTime = now ev;
                  st1 = st\<lparr>table := update_by_id requestId
                            (\<lambda>q. q\<lparr>status := ''approved'', approved_at := Some approvalTime\<rparr>)
                            (table st)\<rparr>
              in
                if req_email r \<noteq> [] \<and> \<not> mail_ok ev
                then ((500, Text ''Server error''), say AdminApproveError st1)
                else
                  let st2 = (if req_email r \<noteq> []
                             then st1\<lparr>outbox := outbox st1 @ [UserMail (req_email r) requestId]\<rparr>
                             else say NoEmailForRequest st1);
                      st3 = st2\<lparr>timers := timers st2 @ [(now ev + LINK_EXPIRY_MS, requestId)]\<rparr>
                  in ((200, ApprovedHtml (LINK_EXPIRY_MS div 60000)), st3)))"

text \<open>The callback registered by Approve with \<^verbatim>\<open>setTimeout\<close>; it answers to nobody.\<close>

definition auto_expire :: "env \<Rightarrow> nat \<Rightarrow> sys \<Rightarrow> sys" where
  "auto_expire ev requestId st =
     (if \<not> select_ok ev
      then say AutoExpireError st
      else
        (case select_by_id (table st) requestId of
          [] \<Rightarrow> st
        | r2 # _ \<Rightarrow>
            if status r2 = ''approved''
            then
              if \<not> write_ok ev
              then say AutoExpireError st
              else say (AutoExpired requestId)
                     (st\<lparr>table := update_by_id requestId (\<lambda>q. q\<lparr>status := ''expired''\<rparr>)
                                    (table st)\<rparr>)
            else st))"

text \<open>\<^verbatim>\<open>GET /download-resume/:requestId\<close> (Download).\<close>

definition download_resume :: "env \<Rightarrow> nat \<Rightarrow> sys \<Rightarrow> response \<times> sys" where
  "download_resume ev requestId st =
     (if \<not> select_ok ev
      then ((500, Text ''Server error''), say DownloadResumeError st)
      else
        (case select_by_id (table st) requestId of
          [] \<Rightarrow> ((404, Text ''Request not found''), st)
        | r # _ \<Rightarrow>
            if status r \<noteq> ''approved''
            then ((403, Text ''Request not approved.''), st)
            else
              (case approved_at r of
                None \<Rightarrow> ((403, Text ''Approval timestamp missing.''), st)
              | Some approvedAt \<Rightarrow>
                  let diff = now ev - approvedAt in
                    if diff > LINK_EXPIRY_MS
                    then
                      if \<not> write_ok ev
                      then ((500, Text ''Server error''), say DownloadResumeError st)
                      else ((403, Text ''Your approval has expired. Please request again.''),
                            st\<lparr>table := update_by_id requestId
                                   (\<lambda>q. q\<lparr>status := ''expired'', approved_at := None\<rparr>)
                                   (table st)\<rparr>)
                    else ((200, Download ''Chakit_Resume.pdf''), st))))"

subsection \<open>Runs of the service\<close>

text \<open>
  What can happen to the service: a call of one of the four handlers, or the run of a
  callback that Approve registered (\<open>AutoExpire\<close>).  A run gives each event the environment
  it happens in; the answers of the handlers are dropped, the state is threaded through.
\<close>

datatype op =
  RequestResume req_body
| RequestStatus string
| AdminApprove nat
| DownloadResume nat
| AutoExpire nat

fun step :: "env \<Rightarrow> op \<Rightarrow> sys \<Rightarrow> sys" where
  "step ev (RequestResume b) st = snd (request_resume ev b st)"
| "step ev (RequestStatus e) st = snd (request_status ev e st)"
| "step ev (AdminApprove i) st = snd (admin_approve ev i st)"
| "step ev (DownloadResume i) st = snd (download_resume ev i st)"
| "step ev (AutoExpire i) st = auto_expire ev i st"

fun run :: "(env \<times> op) list \<Rightarrow> sys \<Rightarrow> sys" where
  "run [] st = st"
| "run ((ev, a) # rest) st = run rest (step ev a st)"

text \<open>The service as started: an empty table whose counter stands at 1.\<close>

definition initial :: sys where
  "initial = \<lparr>table = [], auto_increment = 1, outbox = [], timers = [], console = []\<rparr>"

text \<open>
  The key constraint of the table: identifiers are pairwise distinct and below the
  counter.
\<close>

definition table_ok :: "sys \<Rightarrow> bool" where
  "table_ok st = (distinct (map req_id (table st)) \<and>
               list_all (\<lambda>r. req_id r < auto_increment st) (table st))"


subsection \<open>Concrete environments, inputs and states\<close>

text \<open>A call at time \<open>t\<close> with storage and mail working, and one whose \<^verbatim>\<open>sendMail\<close> throws.\<close>

definition env_at :: "int \<Rightarrow> env" where
  "env_at t = \<lparr>now = t, select_ok = True, write_ok = True, mail_ok = True,
              ADMIN_EMAIL = Some ''admin@x.com''\<rparr>"

definition mail_down :: "int \<Rightarrow> env" where
  "mail_down t = \<lparr>now = t, select_ok = True, write_ok = True, mail_ok = False,
                 ADMIN_EMAIL = Some ''admin@x.com''\<rparr>"

definition alice :: req_body where
  "alice = \<lparr>body_name = Some ''Alice'', body_email = Some ''a@x.com'',
            body_reason = Some ''review''\<rparr>"

definition bob :: req_body where
  "bob = \<lparr>body_name = Some ''Bob'', body_email = Some ''b@x.com'',
          body_reason = Some ''hiring''\<rparr>"

definition nameless :: req_body where
  "nameless = \<lparr>body_name = None, body_email = Some ''a@x.com'',
               body_reason = Some ''review''\<rparr>"

text \<open>Alice's request, identifier 1, created at time 0, in a given status.\<close>

definition alice_row :: "string \<Rightarrow> int option \<Rightarrow> request" where
  "alice_row s a = \<lparr>req_id = 1, req_name = ''Alice'', req_email = ''a@x.com'',
                     req_reason = ''review'', status = s, created_at = 0, approved_at = a\<rparr>"

definition one_row :: "string \<Rightarrow> int option \<Rightarrow> sys" where
  "one_row s a = \<lparr>table = [alice_row s a], auto_increment = 2, outbox = [], timers = [],
                   console = []\<rparr>"

text \<open>Alice's second request, and a table holding her two requests and one of Bob's.\<close>

definition alice_again :: request where
  "alice_again = \<lparr>req_id = 3, req_name = ''Alice'', req_email = ''a@x.com'',
                   req_reason = ''second try'', status = ''pending'', created_at = 500000,
                   approved_at = None\<rparr>"

definition bob_row :: request where
  "bob_row = \<lparr>req_id = 2, req_name = ''Bob'', req_email = ''b@x.com'',
               req_reason = ''hiring'', status = ''approved'', created_at = 400000,
               approved_at = Some 450000\<rparr>"

definition three_rows :: sys where
  "three_rows = \<lparr>table = [alice_row ''expired'' None, bob_row, alice_again],
                  auto_increment = 4, outbox = [], timers = [], console = []\<rparr>"

section \<open>Facts about the queries\<close>

lemma select_by_id_update:
  assumes "\<And>q. req_id (f q) = req_id q"
  shows "select_by_id (update_by_id i f rows) i = map f (select_by_id rows i)"
  using assms by (induction rows) (auto simp: select_by_id_def update_by_id_def)

lemma map_req_id_update:
  assumes "\<And>q. req_id (f q) = req_id q"
  shows "map req_id (update_by_id i f rows) = map req_id rows"
  using assms by (induction rows) (auto simp: update_by_id_def)

lemma update_by_id_keeps:
  assumes "r \<in> set rows" and "req_id r = i \<Longrightarrow> f r = r"
  shows "r \<in> set (update_by_id i f rows)"
  using assms by (induction rows) (auto simp: update_by_id_def)

lemma select_by_id_unique:
  assumes "distinct (map req_id rows)" and "r \<in> set rows"
  shows "select_by_id rows (req_id r) = [r]"
  using assms
proof (induction rows)
  case Nil
  then show ?case by simp
next
  case (Cons a rows)
  show ?case
  proof (cases "a = r")
    case True
    have "req_id r \<notin> req_id ` set rows"
      using Cons.prems(1) True by simp
    then have "req_id q \<noteq> req_id r" if "q \<in> set rows" for q
      using that by (metis imageI)
    then have "filter (\<lambda>q. req_id q = req_id r) rows = []"
      by (simp add: filter_empty_conv)
    then show ?thesis
      using True by (simp add: select_by_id_def)
  next
    case False
    then have "r \<in> set rows"
      using Cons.prems(2) by simp
    moreover from this have "req_id a \<noteq> req_id r"
      using Cons.prems(1) by auto
    ultimately show ?thesis
      using Cons by (simp add: select_by_id_def)
  qed
qed

lemma sorted_last_greatest:
  assumes "sorted (map f ys)" and "q \<in> set ys"
  shows "f q \<le> f (last ys)"
  using assms by (induction ys) (auto split: if_splits)

lemma sort_key_Nil_iff: "sort_key f xs = [] \<longleftrightarrow> xs = []"
  by (metis length_0_conv length_sort)

lemma select_latest_by_email_Nil:
  "select_latest_by_email rows e = [] \<longleftrightarrow> (\<forall>r \<in> set rows. req_email r \<noteq> e)"
  by (simp add: select_latest_by_email_def sort_key_Nil_iff filter_empty_conv)

lemma select_latest_by_email_Cons:
  assumes "select_latest_by_email rows e = r # rs"
  shows "r \<in> set rows \<and> req_email r = e \<and> rs = [] \<and>
         (\<forall>q \<in> set rows. req_email q = e \<longrightarrow> req_id q \<le> req_id r)"
proof -
  define ys where "ys = sort_key req_id (filter (\<lambda>r. req_email r = e) rows)"
  have sel: "take 1 (rev ys) = r # rs"
    using assms by (simp add: select_latest_by_email_def ys_def)
  then have ne: "ys \<noteq> []"
    by auto
  then have "take 1 (rev ys) = [last ys]"
    by (cases ys rule: rev_cases) simp_all
  then have r: "r = last ys" and rs: "rs = []"
    using sel by simp_all
  have set_ys: "set ys = {q \<in> set rows. req_email q = e}"
    by (auto simp: ys_def)
  have "last ys \<in> set ys"
    using ne by simp
  then have "r \<in> set rows" "req_email r = e"
    using r set_ys by auto
  moreover have "req_id q \<le> req_id r" if "q \<in> set rows" "req_email q = e" for q
  proof -
    have "q \<in> set ys" using that set_ys by simp
    moreover have "sorted (map req_id ys)" by (simp add: ys_def)
    ultimately show ?thesis
      unfolding r by (rule sorted_last_greatest[rotated])
  qed
  ultimately show ?thesis
    using rs by blast
qed

section \<open>The key constraint is an invariant of the service\<close>

lemma table_ok_initial: "table_ok initial"
  by (simp add: table_ok_def initial_def)

lemma table_say: "table (say l st) = table st"
  by (simp add: say_def)

lemma table_ok_ids:
  "table_ok st \<longleftrightarrow>
     distinct (map req_id (table st)) \<and> (\<forall>k \<in> set (map req_id (table st)). k < auto_increment st)"
  by (simp add: table_ok_def list_all_iff)

lemma table_ok_update:
  assumes "table_ok st" and "\<And>q. req_id (f q) = req_id q"
  shows "table_ok (st\<lparr>table := update_by_id i f (table st)\<rparr>)"
proof -
  have "map req_id (update_by_id i f (table st)) = map req_id (table st)"
    using assms(2) by (rule map_req_id_update)
  then have "map req_id (table (st\<lparr>table := update_by_id i f (table st)\<rparr>)) = map req_id (table st)"
    by simp
  then show ?thesis
    using assms(1) unfolding table_ok_ids by simp
qed

lemma table_ok_insert:
  assumes "table_ok st"
  shows "table_ok (snd (insert_request n e r t st))"
proof -
  have "\<forall>q \<in> set (table st). req_id q < auto_increment st"
    using assms by (simp add: table_ok_def list_all_iff)
  then have "auto_increment st \<notin> req_id ` set (table st)"
    and "\<forall>q \<in> set (table st). req_id q < Suc (auto_increment st)"
    by (auto simp: less_Suc_eq)
  then show ?thesis
    using assms by (simp add: table_ok_def insert_request_def list_all_iff)
qed

lemma table_ok_request_resume:
  assumes "table_ok st"
  shows "table_ok (snd (request_resume ev b st))"
proof -
  obtain k st1 where ins: "insert_request (the (body_name b)) (the (body_email b))
      (the (body_reason b)) (now ev) st = (k, st1)"
    by (cases "insert_request (the (body_name b)) (the (body_email b))
      (the (body_reason b)) (now ev) st")
  have ok1: "table_ok st1"
    using table_ok_insert[OF assms, of "the (body_name b)" "the (body_email b)"
        "the (body_reason b)" "now ev"] ins by simp
  have "table_ok (say l st1)" and "table_ok (st1\<lparr>outbox := x\<rparr>)" and "table_ok (say l st)" for x l
    using ok1 assms by (simp_all add: table_ok_def say_def)
  then show ?thesis
    using assms by (simp add: request_resume_def ins)
qed

lemma table_ok_admin_approve:
  assumes "table_ok st"
  shows "table_ok (snd (admin_approve ev i st))"
proof -
  define st1 where "st1 = st\<lparr>table := update_by_id i
      (\<lambda>q. q\<lparr>status := ''approved'', approved_at := Some (now ev)\<rparr>) (table st)\<rparr>"
  have ok1: "table_ok st1"
    unfolding st1_def using assms by (rule table_ok_update) simp
  have "table_ok (st1\<lparr>outbox := x, timers := y\<rparr>)"
    and "table_ok ((say l st1)\<lparr>timers := y\<rparr>)"
    and "table_ok (say l st1)" and "table_ok (say l st)" for x y l
    using ok1 assms by (simp_all add: table_ok_def say_def)
  then show ?thesis
    using assms by (simp add: admin_approve_def Let_def st1_def[symmetric] split: list.splits)
qed

lemma table_ok_download_resume:
  assumes "table_ok st"
  shows "table_ok (snd (download_resume ev i st))"
proof -
  have "table_ok (st\<lparr>table := update_by_id i
      (\<lambda>q. q\<lparr>status := ''expired'', approved_at := None\<rparr>) (table st)\<rparr>)"
    using assms by (rule table_ok_update) simp
  moreover have "table_ok (say l st)" for l
    using assms by (simp add: table_ok_def say_def)
  ultimately show ?thesis
    using assms by (simp add: download_resume_def Let_def split: list.splits option.splits)
qed

lemma table_ok_auto_expire:
  assumes "table_ok st"
  shows "table_ok (auto_expire ev i st)"
proof -
  define st1 where "st1 = st\<lparr>table := update_by_id i (\<lambda>q. q\<lparr>status := ''expired''\<rparr>) (table st)\<rparr>"
  have "table_ok st1"
    unfolding st1_def using assms by (rule table_ok_update) simp
  then have "table_ok (say l st1)" and "table_ok (say l st)" for l
    using assms by (simp_all add: table_ok_def say_def)
  then show ?thesis
    using assms by (simp add: auto_expire_def st1_def[symmetric] split: list.splits)
qed

lemma table_ok_step:
  assumes "table_ok st"
  shows "table_ok (step ev a st)"
proof (cases a)
  case (RequestStatus e)
  have "table_ok (say l st)" for l
    using assms by (simp add: table_ok_def say_def)
  then show ?thesis
    using assms RequestStatus by (simp add: request_status_def split: list.splits)
qed (simp_all add: assms table_ok_request_resume table_ok_admin_approve
      table_ok_download_resume table_ok_auto_expire)

lemma table_ok_run:
  assumes "table_ok st"
  shows "table_ok (run ops st)"
  using assms by (induction ops arbitrary: st) (auto simp: table_ok_step)

subsection \<open>An approved row is a stamped row\<close>






subsection \<open>The timer callback never writes \<open>approved_at\<close>\<close>


section \<open>Download\<close>




text \<open>
  C5.  An approved request with a timestamp, asked for no later than \<open>LINK_EXPIRY_MS\<close>
  after it: Download serves the document and the state (hence the record) is unchanged, so
  the next call within the window is served again.
\<close>

theorem download_within_window:
  assumes "select_ok ev"
    and "select_by_id (table st) i = r # rs"
    and "status r = ''approved''"
    and "approved_at r = Some t"
    and "now ev - t \<le> LINK_EXPIRY_MS"
  shows "download_resume ev i st = ((200, Download ''Chakit_Resume.pdf''), st)"
  using assms by (simp add: download_resume_def)

theorem download_within_window_witness:
  "download_resume (env_at 181000) 1 (one_row ''approved'' (Some 1000))
     = ((200, Download ''Chakit_Resume.pdf''), one_row ''approved'' (Some 1000))"
  using download_within_window [of "env_at 181000" "one_row ''approved'' (Some 1000)" 1
      "alice_row ''approved'' (Some 1000)" "[]" 1000]
  by (simp add: env_at_def one_row_def alice_row_def select_by_id_def LINK_EXPIRY_MS_def)

text \<open>
  C4.  An approved request with a timestamp, asked for more than \<open>LINK_EXPIRY_MS\<close> after it
  (storage working): Download answers with the expiry message, which is not the message of
  the status check and not the document, and afterwards every row of that identifier is
  \<open>expired\<close> with a null \<open>approved_at\<close>; the rows of other identifiers are as before.
\<close>

theorem download_after_window:
  assumes "select_ok ev" and "write_ok ev"
    and "select_by_id (table st) i = r # rs"
    and "status r = ''approved''"
    and "approved_at r = Some t"
    and "now ev - t > LINK_EXPIRY_MS"
  shows "fst (download_resume ev i st)
           = (403, Text ''Your approval has expired. Please request again.'')
       \<and> fst (download_resume ev i st) \<noteq> (403, Text ''Request not approved.'')
       \<and> snd (fst (download_resume ev i st)) \<noteq> Download ''Chakit_Resume.pdf''
       \<and> select_by_id (table (snd (download_resume ev i st))) i
           = map (\<lambda>q. q\<lparr>status := ''expired'', approved_at := None\<rparr>) (r # rs)
       \<and> list_all (\<lambda>q. status q = ''expired'' \<and> approved_at q = None)
           (select_by_id (table (snd (download_resume ev i st))) i)
       \<and> table (snd (download_resume ev i st))
           = map (\<lambda>q. if req_id q = i then q\<lparr>status := ''expired'', approved_at := None\<rparr> else q)
               (table st)"
proof -
  let ?f = "\<lambda>q. q\<lparr>status := ''expired'', approved_at := None\<rparr>"
  have res: "download_resume ev i st
      = ((403, Text ''Your approval has expired. Please request again.''),
         st\<lparr>table := update_by_id i ?f (table st)\<rparr>)"
    using assms by (simp add: download_resume_def)
  have sel: "select_by_id (update_by_id i ?f (table st)) i = map ?f (r # rs)"
    using assms(3) by (simp add: select_by_id_update)
  have "list_all (\<lambda>q. status q = ''expired'' \<and> approved_at q = None) (map ?f (r # rs))"
    by (simp add: list_all_iff)
  then show ?thesis
    unfolding res using sel by (simp add: update_by_id_def)
qed

theorem download_after_window_witness:
  "fst (download_resume (env_at 181001) 1 (one_row ''approved'' (Some 1000)))
     = (403, Text ''Your approval has expired. Please request again.'')
   \<and> table (snd (download_resume (env_at 181001) 1 (one_row ''approved'' (Some 1000))))
     = [alice_row ''expired'' None]"
  using download_after_window [of "env_at 181001" "one_row ''approved'' (Some 1000)" 1
      "alice_row ''approved'' (Some 1000)" "[]" 1000]
  by (simp add: env_at_def one_row_def alice_row_def select_by_id_def LINK_EXPIRY_MS_def)

text \<open>
  C6, as the handler has it.  A request whose status is not \<open>approved\<close> (\<open>pending\<close> and
  \<open>expired\<close> alike): Download answers 403 ``Request not approved.'', the message of the
  status check, serves nothing and leaves the state as it was.  The expiry message is the
  answer only of a call that finds an approved request with a timestamp more than
  \<open>LINK_EXPIRY_MS\<close> old, and the document is served only to a call that finds an approved
  request with a timestamp at most that old.
\<close>

theorem download_not_approved:
  "(select_ok ev \<and> select_by_id (table st) i = r # rs \<and> status r \<noteq> ''approved'' \<longrightarrow>
      download_resume ev i st = ((403, Text ''Request not approved.''), st))
   \<and> (fst (download_resume ev i st)
         = (403, Text ''Your approval has expired. Please request again.'') \<longrightarrow>
        (\<exists>q qs t. select_by_id (table st) i = q # qs \<and> status q = ''approved''
           \<and> approved_at q = Some t \<and> LINK_EXPIRY_MS < now ev - t))
   \<and> (snd (fst (download_resume ev i st)) = Download ''Chakit_Resume.pdf'' \<longrightarrow>
        (\<exists>q qs t. select_by_id (table st) i = q # qs \<and> status q = ''approved''
           \<and> approved_at q = Some t \<and> now ev - t \<le> LINK_EXPIRY_MS))"
proof -
  let ?P = "\<lambda>c. \<exists>q qs t. select_by_id (table st) i = q # qs \<and> status q = ''approved''
           \<and> approved_at q = Some t \<and> c (now ev - t)"
  have first: "download_resume ev i st = ((403, Text ''Request not approved.''), st)"
    if "select_ok ev" "select_by_id (table st) i = r # rs" "status r \<noteq> ''approved''"
    using that by (simp add: download_resume_def)
  have rest: "(fst (download_resume ev i st)
         = (403, Text ''Your approval has expired. Please request again.'') \<longrightarrow>
           ?P (\<lambda>d. LINK_EXPIRY_MS < d))
       \<and> (snd (fst (download_resume ev i st)) = Download ''Chakit_Resume.pdf'' \<longrightarrow>
           ?P (\<lambda>d. d \<le> LINK_EXPIRY_MS))"
  proof (cases "select_ok ev")
    case False
    then show ?thesis
      by (simp add: download_resume_def)
  next
    case ok: True
    show ?thesis
    proof (cases "select_by_id (table st) i")
      case Nil
      then show ?thesis
        using ok by (simp add: download_resume_def)
    next
      case (Cons q qs)
      show ?thesis
      proof (cases "status q = ''approved''")
        case False
        then show ?thesis
          using ok Cons by (simp add: download_resume_def)
      next
        case appr: True
        show ?thesis
        proof (cases "approved_at q")
          case None
          then show ?thesis
            using ok Cons appr by (simp add: download_resume_def)
        next
          case (Some t)
          show ?thesis
          proof (cases "LINK_EXPIRY_MS < now ev - t")
            case True
            then show ?thesis
              using ok Cons appr Some by (simp add: download_resume_def)
          next
            case False
            then show ?thesis
              using ok Cons appr Some by (simp add: download_resume_def)
          qed
        qed
      qed
    qed
  qed
  show ?thesis
    using first rest by simp
qed

theorem download_not_approved_witness:
  "download_resume (env_at 7) 1 (one_row ''pending'' None)
     = ((403, Text ''Request not approved.''), one_row ''pending'' None)
   \<and> download_resume (env_at 7) 1 (one_row ''expired'' None)
     = ((403, Text ''Request not approved.''), one_row ''expired'' None)
   \<and> fst (download_resume (env_at 181001) 1 (one_row ''approved'' (Some 1000)))
     = (403, Text ''Your approval has expired. Please request again.'')
   \<and> (\<exists>q qs t. select_by_id (table (one_row ''approved'' (Some 1000))) 1 = q # qs
         \<and> status q = ''approved'' \<and> approved_at q = Some t
         \<and> LINK_EXPIRY_MS < now (env_at 181001) - t)
   \<and> snd (fst (download_resume (env_at 181000) 1 (one_row ''approved'' (Some 1000))))
     = Download ''Chakit_Resume.pdf''
   \<and> (\<exists>q qs t. select_by_id (table (one_row ''approved'' (Some 1000))) 1 = q # qs
         \<and> status q = ''approved'' \<and> approved_at q = Some t
         \<and> now (env_at 181000) - t \<le> LINK_EXPIRY_MS)"
proof -
  have pending: "download_resume (env_at 7) 1 (one_row ''pending'' None)
      = ((403, Text ''Request not approved.''), one_row ''pending'' None)"
    by (rule download_not_approved [of "env_at 7" "one_row ''pending'' None" 1
          "alice_row ''pending'' None" "[]", THEN conjunct1, rule_format])
      (simp add: env_at_def one_row_def alice_row_def select_by_id_def)
  have expired: "download_resume (env_at 7) 1 (one_row ''expired'' None)
      = ((403, Text ''Request not approved.''), one_row ''expired'' None)"
    by (rule download_not_approved [of "env_at 7" "one_row ''expired'' None" 1
          "alice_row ''expired'' None" "[]", THEN conjunct1, rule_format])
      (simp add: env_at_def one_row_def alice_row_def select_by_id_def)
  have late: "fst (download_resume (env_at 181001) 1 (one_row ''approved'' (Some 1000)))
      = (403, Text ''Your approval has expired. Please request again.'')"
    and served: "snd (fst (download_resume (env_at 181000) 1 (one_row ''approved'' (Some 1000))))
      = Download ''Chakit_Resume.pdf''"
    by (simp_all add: download_resume_def env_at_def one_row_def alice_row_def select_by_id_def
        LINK_EXPIRY_MS_def)
  note late_only = download_not_approved [of "env_at 181001" "one_row ''approved'' (Some 1000)" 1,
      THEN conjunct2, THEN conjunct1, rule_format, OF late]
  note served_only = download_not_approved [of "env_at 181000" "one_row ''approved'' (Some 1000)" 1,
      THEN conjunct2, THEN conjunct2, rule_format, OF served]
  show ?thesis
    by (intro conjI pending expired late served late_only served_only)
qed

text \<open>
  C6 as stated fails on a stored \<open>expired\<close> request: the answer is the message of the status
  check, not the expiry message.
\<close>

theorem download_expired_is_not_approved_message:
  "fst (download_resume (env_at 7) 1 (one_row ''expired'' None))
     = (403, Text ''Request not approved.'')
   \<and> fst (download_resume (env_at 7) 1 (one_row ''expired'' None))
     \<noteq> (403, Text ''Your approval has expired. Please request again.'')"
  by (simp add: download_resume_def env_at_def one_row_def alice_row_def select_by_id_def)

section \<open>Approve\<close>




section \<open>Notification failures\<close>

text \<open>
  C2 as stated fails: with \<^verbatim>\<open>sendMail\<close> throwing, Submit answers 500 instead of 201 with the
  identifier, and Approve answers 500 instead of its confirmation page.
\<close>

theorem mail_failure_reaches_caller:
  "fst (request_resume (mail_down 0) alice initial) = (500, JsonMessage ''Server error'')
   \<and> fst (admin_approve (mail_down 1000) 1 (one_row ''pending'' None))
       = (500, Text ''Server error'')"
  by (simp add: request_resume_def admin_approve_def mail_down_def alice_def initial_def
      one_row_def alice_row_def falsy_def insert_request_def select_by_id_def Let_def)

text \<open>
  C2, as the handlers have it.  \<^verbatim>\<open>sendMail\<close> is awaited inside the \<^verbatim>\<open>try\<close> block of the
  handler.  When it throws (storage working), the error is written to the console and the
  caller gets the 500 answer of the \<^verbatim>\<open>catch\<close> block: Submit does not return the identifier
  and Approve does not return its confirmation.  What was written before the mail stays:
  the inserted row, respectively the approval; Approve registers no timer.
\<close>

theorem mail_failure_is_server_error:
  assumes "\<not> mail_ok ev" and "select_ok ev" and "write_ok ev"
  shows "(\<not> falsy (body_name b) \<and> \<not> falsy (body_email b) \<and> \<not> falsy (body_reason b)
            \<and> \<not> falsy (ADMIN_EMAIL ev) \<longrightarrow>
            fst (request_resume ev b st) = (500, JsonMessage ''Server error'')
          \<and> console (snd (request_resume ev b st)) = console st @ [RequestResumeError]
          \<and> outbox (snd (request_resume ev b st)) = outbox st
          \<and> map req_id (table (snd (request_resume ev b st)))
              = map req_id (table st) @ [auto_increment st])
       \<and> (select_by_id (table st) i = r # rs \<and> req_email r \<noteq> [] \<longrightarrow>
            fst (admin_approve ev i st) = (500, Text ''Server error'')
          \<and> console (snd (admin_approve ev i st)) = console st @ [AdminApproveError]
          \<and> outbox (snd (admin_approve ev i st)) = outbox st
          \<and> timers (snd (admin_approve ev i st)) = timers st
          \<and> table (snd (admin_approve ev i st))
              = map (\<lambda>q. if req_id q = i
                          then q\<lparr>status := ''approved'', approved_at := Some (now ev)\<rparr> else q)
                  (table st))"
  using assms
  by (simp add: request_resume_def admin_approve_def insert_request_def say_def Let_def
      update_by_id_def)

theorem mail_failure_is_server_error_witness:
  "fst (request_resume (mail_down 20) bob initial) = (500, JsonMessage ''Server error'')
   \<and> console (snd (request_resume (mail_down 20) bob initial)) = [RequestResumeError]
   \<and> map req_id (table (snd (request_resume (mail_down 20) bob initial))) = [1]
   \<and> fst (admin_approve (mail_down 20) 1 (one_row ''pending'' None))
       = (500, Text ''Server error'')
   \<and> console (snd (admin_approve (mail_down 20) 1 (one_row ''pending'' None)))
       = [AdminApproveError]
   \<and> timers (snd (admin_approve (mail_down 20) 1 (one_row ''pending'' None))) = []
   \<and> table (snd (admin_approve (mail_down 20) 1 (one_row ''pending'' None)))
       = [alice_row ''approved'' (Some 20)]"
  using mail_failure_is_server_error [of "mail_down 20" bob initial 1
      "alice_row ''pending'' None" "[]"]
    mail_failure_is_server_error [of "mail_down 20" bob "one_row ''pending'' None" 1
      "alice_row ''pending'' None" "[]"]
  by (simp add: mail_down_def bob_def initial_def one_row_def alice_row_def falsy_def
      select_by_id_def)

section \<open>Expiry\<close>

text \<open>
  C1 on the timer path.  Alice submits at time 0, the administrator approves at 1000 and the
  callback registered by that approval runs at 181000: the row is \<open>expired\<close> and its
  \<open>approved_at\<close> is still 1000.
\<close>

theorem auto_expire_leaves_approved_at:
  "table (run [(env_at 0, RequestResume alice), (env_at 1000, AdminApprove 1),
               (env_at 181000, AutoExpire 1)] initial)
     = [alice_row ''expired'' (Some 1000)]"
  by (simp add: request_resume_def admin_approve_def auto_expire_def env_at_def alice_def
      initial_def alice_row_def falsy_def insert_request_def select_by_id_def update_by_id_def
      say_def Let_def)

section \<open>No way back from \<open>expired\<close>, except by Approve\<close>

lemma step_keeps_expired:
  assumes "table_ok st" and "r \<in> set (table st)" and "status r = ''expired''"
    and "a \<noteq> AdminApprove (req_id r)"
  shows "r \<in> set (table (step ev a st))"
proof -
  have sel: "select_by_id (table st) (req_id r) = [r]"
    using assms(1,2) by (simp add: table_ok_def select_by_id_unique)
  have upd: "r \<in> set (update_by_id j f (table st))" if "req_id r = j \<Longrightarrow> f r = r" for j f
    using assms(2) that by (rule update_by_id_keeps)
  show ?thesis
  proof (cases a)
    case (RequestResume b)
    then show ?thesis
      using assms(2)
      by (simp add: request_resume_def insert_request_def say_def)
  next
    case (RequestStatus e)
    then show ?thesis
      using assms(2) by (simp add: request_status_def say_def split: list.splits)
  next
    case (AdminApprove j)
    then have "j \<noteq> req_id r"
      using assms(4) by simp
    then have "r \<in> set (update_by_id j f (table st))" for f
      by (intro upd) simp
    then show ?thesis
      using assms(2) AdminApprove
      by (simp add: admin_approve_def say_def Let_def split: list.splits)
  next
    case (DownloadResume j)
    show ?thesis
    proof (cases "j = req_id r")
      case True
      then show ?thesis
        using assms(2,3) sel DownloadResume by (simp add: download_resume_def say_def)
    next
      case False
      then have "r \<in> set (update_by_id j f (table st))" for f
        by (intro upd) simp
      then show ?thesis
        using assms(2) DownloadResume
        by (simp add: download_resume_def say_def Let_def split: list.splits option.splits)
    qed
  next
    case (AutoExpire j)
    show ?thesis
    proof (cases "j = req_id r")
      case True
      then show ?thesis
        using assms(2,3) sel AutoExpire by (simp add: auto_expire_def say_def)
    next
      case False
      then have "r \<in> set (update_by_id j f (table st))" for f
        by (intro upd) simp
      then show ?thesis
        using assms(2) AutoExpire
        by (simp add: auto_expire_def say_def split: list.splits)
    qed
  qed
qed

lemma run_keeps_expired:
  assumes "table_ok st" and "r \<in> set (table st)" and "status r = ''expired''"
    and "AdminApprove (req_id r) \<notin> snd ` set ops"
  shows "r \<in> set (table (run ops st))"
  using assms
proof (induction ops arbitrary: st)
  case Nil
  then show ?case by simp
next
  case (Cons x ops)
  obtain ev a where x: "x = (ev, a)"
    by (cases x)
  have "a \<noteq> AdminApprove (req_id r)"
    using Cons.prems(4) x by auto
  then have "r \<in> set (table (step ev a st))"
    using Cons.prems(1-3) by (intro step_keeps_expired)
  moreover have "table_ok (step ev a st)"
    using Cons.prems(1) by (rule table_ok_step)
  moreover have "AdminApprove (req_id r) \<notin> snd ` set ops"
    using Cons.prems(4) by simp
  ultimately show ?case
    using Cons.IH Cons.prems(3) x by simp
qed

text \<open>
  C3 as stated fails: Approve on an \<open>expired\<close> request makes it \<open>approved\<close> again.
\<close>

theorem approve_revives_expired:
  "map status (table (one_row ''expired'' None)) = [''expired'']
   \<and> map status (table (step (env_at 9) (AdminApprove 1) (one_row ''expired'' None)))
       = [''approved'']"
  by (simp add: admin_approve_def env_at_def one_row_def alice_row_def select_by_id_def
      update_by_id_def Let_def)

text \<open>
  C3, as the handlers have it.  In a table that satisfies its key constraint, an \<open>expired\<close>
  request is left exactly as it is by every run of Submit, GetStatus, Download, the timer
  callback, and Approve of other identifiers: it stays the one row of its identifier, with
  status \<open>expired\<close>.  Approve of its own identifier (storage working) is the one way out: it
  turns the row into an \<open>approved\<close> one stamped with the time of the call.
\<close>

theorem expired_stays_unless_approved:
  assumes "table_ok st" and "r \<in> set (table st)" and "status r = ''expired''"
  shows "(AdminApprove (req_id r) \<notin> snd ` set ops \<longrightarrow>
            select_by_id (table (run ops st)) (req_id r) = [r])
       \<and> (select_ok ev \<and> write_ok ev \<longrightarrow>
            select_by_id (table (step ev (AdminApprove (req_id r)) st)) (req_id r)
              = [r\<lparr>status := ''approved'', approved_at := Some (now ev)\<rparr>])"
proof -
  have sel: "select_by_id (table st) (req_id r) = [r]"
    using assms(1,2) by (simp add: table_ok_def select_by_id_unique)
  have "select_by_id (table (run ops st)) (req_id r) = [r]"
    if "AdminApprove (req_id r) \<notin> snd ` set ops"
  proof -
    have "r \<in> set (table (run ops st))"
      using assms that by (rule run_keeps_expired)
    moreover have "table_ok (run ops st)"
      using assms(1) by (rule table_ok_run)
    ultimately show ?thesis
      by (simp add: table_ok_def select_by_id_unique)
  qed
  moreover have "select_by_id (table (step ev (AdminApprove (req_id r)) st)) (req_id r)
      = [r\<lparr>status := ''approved'', approved_at := Some (now ev)\<rparr>]"
    if "select_ok ev" and "write_ok ev"
  proof -
    let ?f = "\<lambda>q. q\<lparr>status := ''approved'', approved_at := Some (now ev)\<rparr>"
    have "table (snd (admin_approve ev (req_id r) st)) = update_by_id (req_id r) ?f (table st)"
      using that sel by (simp add: admin_approve_def Let_def say_def)
    then show ?thesis
      using sel by (simp add: select_by_id_update)
  qed
  ultimately show ?thesis
    by simp
qed

theorem expired_stays_unless_approved_witness:
  "select_by_id
     (table (run [(env_at 1, DownloadResume 1), (env_at 2, AutoExpire 1),
                  (env_at 3, RequestResume bob), (env_at 4, RequestStatus ''a@x.com''),
                  (env_at 5, AdminApprove 2)]
               (one_row ''expired'' None))) 1
     = [alice_row ''expired'' None]
   \<and> select_by_id (table (step (env_at 6) (AdminApprove 1) (one_row ''expired'' None))) 1
     = [alice_row ''approved'' (Some 6)]"
  using expired_stays_unless_approved [of "one_row ''expired'' None" "alice_row ''expired'' None"
      "[(env_at 1, DownloadResume 1), (env_at 2, AutoExpire 1),
        (env_at 3, RequestResume bob), (env_at 4, RequestStatus ''a@x.com''),
        (env_at 5, AdminApprove 2)]" "env_at 6"]
  by (simp add: table_ok_def one_row_def alice_row_def env_at_def)

section \<open>GetStatus\<close>

text \<open>
  C9.  With the reading query working: for an email no row carries, GetStatus answers 200
  with status \<open>none\<close>; otherwise it answers 200 with the status, identifier and approval
  timestamp of a row of that email whose identifier no other row of that email exceeds.
  The state is unchanged either way.
\<close>

theorem request_status_latest:
  assumes "select_ok ev"
  shows "((\<forall>q \<in> set (table st). req_email q \<noteq> e) \<longrightarrow>
            request_status ev e st = ((200, JsonStatus ''none''), st))
       \<and> ((\<exists>q \<in> set (table st). req_email q = e) \<longrightarrow>
            (\<exists>r \<in> set (table st).
               req_email r = e
             \<and> (\<forall>q \<in> set (table st). req_email q = e \<longrightarrow> req_id q \<le> req_id r)
             \<and> request_status ev e st
                 = ((200, JsonStatusRow (status r) (req_id r) (approved_at r)), st)))"
proof (cases "select_latest_by_email (table st) e")
  case Nil
  then have none: "\<forall>q \<in> set (table st). req_email q \<noteq> e"
    by (simp add: select_latest_by_email_Nil)
  have "request_status ev e st = ((200, JsonStatus ''none''), st)"
    using assms Nil by (simp add: request_status_def)
  then show ?thesis
    using none by blast
next
  case (Cons r rs)
  then have r: "r \<in> set (table st)" "req_email r = e"
    and top: "\<forall>q \<in> set (table st). req_email q = e \<longrightarrow> req_id q \<le> req_id r"
    using select_latest_by_email_Cons[OF Cons] by simp_all
  have "request_status ev e st = ((200, JsonStatusRow (status r) (req_id r) (approved_at r)), st)"
    using assms Cons by (simp add: request_status_def)
  then show ?thesis
    using r top by blast
qed

theorem request_status_latest_witness:
  "request_status (env_at 600000) ''z@x.com'' three_rows = ((200, JsonStatus ''none''), three_rows)
   \<and> request_status (env_at 600000) ''a@x.com'' three_rows
       = ((200, JsonStatusRow ''pending'' 3 None), three_rows)
   \<and> request_status (env_at 600000) ''b@x.com'' three_rows
       = ((200, JsonStatusRow ''approved'' 2 (Some 450000)), three_rows)"
  using request_status_latest [of "env_at 600000" three_rows "''z@x.com''"]
    request_status_latest [of "env_at 600000" three_rows "''a@x.com''"]
    request_status_latest [of "env_at 600000" three_rows "''b@x.com''"]
  by (simp add: env_at_def three_rows_def alice_row_def alice_again_def bob_row_def)

section \<open>Submit\<close>

text \<open>
  C8 as stated fails: with all three fields present the row is created, but when the mail
  to the administrator fails the answer is 500 and carries no identifier.
\<close>

theorem submit_valid_without_identifier:
  "\<not> falsy (body_name bob) \<and> \<not> falsy (body_email bob) \<and> \<not> falsy (body_reason bob)
   \<and> fst (request_resume (mail_down 50) bob (one_row ''pending'' None))
       = (500, JsonMessage ''Server error'')
   \<and> map req_id (table (snd (request_resume (mail_down 50) bob (one_row ''pending'' None))))
       = [1, 2]"
  by (simp add: request_resume_def mail_down_def bob_def one_row_def alice_row_def falsy_def
      insert_request_def say_def)

text \<open>
  C8, as the handler has it.  If one of the three fields is absent or empty, Submit
  answers 400 and the state is unchanged.  Otherwise, when the row can be stored, the table
  grows by exactly one row: \<open>pending\<close>, null \<open>approved_at\<close>, created at the time of the call,
  under the identifier the counter held, which the counter then passes; in a table that
  satisfies its key constraint this identifier is above every stored one, and the
  constraint holds again afterwards.  The answer is 201 with that identifier when the mail
  to the administrator is sent or skipped, and 500 when it fails.
\<close>

theorem request_resume_effect:
  "((falsy (body_name b) \<or> falsy (body_email b) \<or> falsy (body_reason b)) \<longrightarrow>
      request_resume ev b st = ((400, JsonMessage ''All fields are required''), st))
   \<and> (\<not> falsy (body_name b) \<and> \<not> falsy (body_email b) \<and> \<not> falsy (body_reason b)
        \<and> write_ok ev \<longrightarrow>
        table (snd (request_resume ev b st))
          = table st @
            [\<lparr>req_id = auto_increment st, req_name = the (body_name b),
              req_email = the (body_email b), req_reason = the (body_reason b),
              status = ''pending'', created_at = now ev, approved_at = None\<rparr>]
      \<and> auto_increment (snd (request_resume ev b st)) = Suc (auto_increment st)
      \<and> (table_ok st \<longrightarrow>
            list_all (\<lambda>q. req_id q < auto_increment st) (table st)
          \<and> auto_increment st \<notin> set (map req_id (table st))
          \<and> table_ok (snd (request_resume ev b st)))
      \<and> (falsy (ADMIN_EMAIL ev) \<or> mail_ok ev \<longrightarrow>
            fst (request_resume ev b st)
              = (201, JsonSubmitted ''Request submitted'' (auto_increment st)))
      \<and> (\<not> falsy (ADMIN_EMAIL ev) \<and> \<not> mail_ok ev \<longrightarrow>
            fst (request_resume ev b st) = (500, JsonMessage ''Server error'')))"
proof -
  have fresh: "auto_increment st \<notin> set (map req_id (table st))"
    and below: "list_all (\<lambda>q. req_id q < auto_increment st) (table st)"
    if "table_ok st"
    using that by (auto simp: table_ok_def list_all_iff)
  have ok: "table_ok (snd (request_resume ev b st))" if "table_ok st"
    using that by (rule table_ok_request_resume)
  have "request_resume ev b st = ((400, JsonMessage ''All fields are required''), st)"
    if "falsy (body_name b) \<or> falsy (body_email b) \<or> falsy (body_reason b)"
    using that by (simp add: request_resume_def)
  moreover have "table (snd (request_resume ev b st))
          = table st @
            [\<lparr>req_id = auto_increment st, req_name = the (body_name b),
              req_email = the (body_email b), req_reason = the (body_reason b),
              status = ''pending'', created_at = now ev, approved_at = None\<rparr>]"
    and "auto_increment (snd (request_resume ev b st)) = Suc (auto_increment st)"
    and "falsy (ADMIN_EMAIL ev) \<or> mail_ok ev \<longrightarrow>
            fst (request_resume ev b st)
              = (201, JsonSubmitted ''Request submitted'' (auto_increment st))"
    and "\<not> falsy (ADMIN_EMAIL ev) \<and> \<not> mail_ok ev \<longrightarrow>
            fst (request_resume ev b st) = (500, JsonMessage ''Server error'')"
    if "\<not> falsy (body_name b)" "\<not> falsy (body_email b)" "\<not> falsy (body_reason b)" "write_ok ev"
    using that by (simp_all add: request_resume_def insert_request_def say_def)
  ultimately show ?thesis
    using fresh below ok by blast
qed

theorem request_resume_effect_witness:
  "request_resume (env_at 70) nameless three_rows
     = ((400, JsonMessage ''All fields are required''), three_rows)
   \<and> table (snd (request_resume (env_at 70) alice initial)) = [alice_row ''pending'' None
        \<lparr>created_at := 70\<rparr>]
   \<and> fst (request_resume (env_at 70) alice initial) = (201, JsonSubmitted ''Request submitted'' 1)
   \<and> fst (request_resume (env_at 70) bob three_rows) = (201, JsonSubmitted ''Request submitted'' 4)
   \<and> 4 \<notin> set (map req_id (table three_rows))
   \<and> fst (request_resume (mail_down 70) bob three_rows) = (500, JsonMessage ''Server error'')"
  using request_resume_effect [of nameless "env_at 70" three_rows]
    request_resume_effect [of alice "env_at 70" initial]
    request_resume_effect [of bob "env_at 70" three_rows]
    request_resume_effect [of bob "mail_down 70" three_rows]
  by (simp add: env_at_def mail_down_def nameless_def alice_def bob_def initial_def
      three_rows_def alice_row_def alice_again_def bob_row_def falsy_def table_ok_def)

end
